theory Spec2Isabelle
  imports Complex_Main
begin

section \<open>JavaScript values\<close>

text \<open>
  The values that \<^verbatim>\<open>JSON.parse\<close> builds, together with \<^verbatim>\<open>undefined\<close>, which a
  property read yields for a missing property. \<open>Num q\<close> is the number whose value is \<open>q\<close>
  (a parsed JSON number is a finite double, and \<^verbatim>\<open>-0 === 0\<close>); \<open>Obj kvs\<close> is an object
  with the own properties \<open>kvs\<close>, each name once.
\<close>

datatype jsval =
  Undefined
| Null
| Bool bool
| Num rat
| Str string
| Arr "jsval list"
| Obj "(string \<times> jsval) list"

text \<open>Truthiness, as \<^verbatim>\<open>&&\<close> and \<^verbatim>\<open>if\<close> test it.\<close>

fun truthy :: "jsval \<Rightarrow> bool" where
  "truthy Undefined = False"
| "truthy Null = False"
| "truthy (Bool b) = b"
| "truthy (Num q) = (q \<noteq> 0)"
| "truthy (Str s) = (s \<noteq> [])"
| "truthy (Arr xs) = True"
| "truthy (Obj kvs) = True"

text \<open>
  \<^verbatim>\<open>null\<close> and \<^verbatim>\<open>undefined\<close> are the two values on which a property read throws a
  TypeError.
\<close>

fun nullish :: "jsval \<Rightarrow> bool" where
  "nullish Undefined = True"
| "nullish Null = True"
| "nullish v = False"

text \<open>
  The property read \<^verbatim>\<open>v.name\<close> on a value that is not nullish, for the property names
  the program reads (\<^verbatim>\<open>method\<close>, \<^verbatim>\<open>params\<close>, \<^verbatim>\<open>battleResult\<close>, \<^verbatim>\<open>result\<close>,
  \<^verbatim>\<open>id\<close>, \<^verbatim>\<open>battleResults\<close>, \<^verbatim>\<open>error\<close>, \<^verbatim>\<open>messageType\<close>, \<^verbatim>\<open>payload\<close>,
  \<^verbatim>\<open>common\<close>, \<^verbatim>\<open>bonusType\<close>, \<^verbatim>\<open>winnerTeam\<close>, \<^verbatim>\<open>personal\<close>, \<^verbatim>\<open>avatar\<close>,
  \<^verbatim>\<open>team\<close>): an object yields its own property or \<^verbatim>\<open>undefined\<close>; a primitive or an
  array has none of these names on its prototype and yields \<^verbatim>\<open>undefined\<close>. Every read
  the source makes on a value that may be nullish is guarded in the model by \<open>nullish\<close>
  or \<open>truthy\<close>, as the TypeError or the \<^verbatim>\<open>&&\<close> of the source.
\<close>

fun get :: "jsval \<Rightarrow> string \<Rightarrow> jsval" where
  "get (Obj kvs) name = (case map_of kvs name of None \<Rightarrow> Undefined | Some v \<Rightarrow> v)"
| "get v name = Undefined"

text \<open>
  Strict equality \<^verbatim>\<open>a === b\<close>. Objects and arrays are equal only when they are the same
  reference; the source compares a parsed value with a literal, or two values found at
  different places of one parsed tree, which are never the same reference.
\<close>

fun strict_eq :: "jsval \<Rightarrow> jsval \<Rightarrow> bool" where
  "strict_eq Undefined Undefined = True"
| "strict_eq Null Null = True"
| "strict_eq (Bool a) (Bool b) = (a = b)"
| "strict_eq (Num a) (Num b) = (a = b)"
| "strict_eq (Str a) (Str b) = (a = b)"
| "strict_eq a b = False"

text \<open>
  What \<^verbatim>\<open>for (const x of v)\<close> iterates over: the elements of an array, the characters of
  a string; any other value is not iterable and the loop throws a TypeError.
\<close>

fun iterate :: "jsval \<Rightarrow> jsval list option" where
  "iterate (Arr xs) = Some xs"
| "iterate (Str s) = Some (map (\<lambda>c. Str [c]) s)"
| "iterate v = None"

text \<open>
  The result of a division of two counters. The counters are natural numbers, so the
  quotient is \<^verbatim>\<open>NaN\<close> for \<open>0 / 0\<close>, \<^verbatim>\<open>Infinity\<close> for a positive numerator over \<open>0\<close>, and
  otherwise \<open>Finite q\<close>, the double nearest to the exact quotient \<open>q\<close>.
\<close>

datatype jsnumber = NaN | Infinity | Finite rat

definition js_div :: "nat \<Rightarrow> nat \<Rightarrow> jsnumber" where
  "js_div a b =
     (if b = 0 then (if a = 0 then NaN else Infinity)
      else Finite (of_nat a / of_nat b))"

section \<open>Constants\<close>

definition RANDOM_BATTLE :: jsval where
  "RANDOM_BATTLE = Num 1"

definition GRAND_BATTLE :: jsval where
  "GRAND_BATTLE = Num 24"

section \<open>State\<close>

text \<open>
  One invocation of \<^verbatim>\<open>render\<close>, recorded with the values of the three globals it read.
\<close>

record render_call =
  seen_victoryCount :: nat
  seen_lossCount :: nat
  seen_hint :: bool

text \<open>
  The state of the page: the three globals of the script, the three places of the
  document that \<^verbatim>\<open>render\<close> writes, whether the websocket \<^verbatim>\<open>ws\<close> has been constructed,
  the values whose \<^verbatim>\<open>JSON.stringify\<close> text was handed to \<^verbatim>\<open>ws.send\<close>, the calls of
  \<^verbatim>\<open>console.error\<close> (label and value), and the history of \<^verbatim>\<open>render\<close> invocations.
  The counters are JavaScript numbers that start at 0 and are only ever incremented by 1;
  such numbers are exact integers (below \<open>2 ^ 53\<close>), modelled as \<open>nat\<close>.
\<close>

record page =
  victoryCount :: nat
  lossCount :: nat
  showDisconnectedHint :: bool
  title :: string
  innerHTML :: string
  favicon_href :: string
  ws_constructed :: bool
  sent :: "jsval list"
  console :: "(string \<times> jsval) list"
  renders :: "render_call list"

datatype js_error = SyntaxError | TypeError | RendererFault

text \<open>
  A handler either runs to its end or throws; an exception keeps the state as mutated up
  to the throw.
\<close>

datatype outcome = Completed page | Faulted js_error page

fun after :: "outcome \<Rightarrow> page" where
  "after (Completed s) = s"
| "after (Faulted e s) = s"

fun completed :: "outcome \<Rightarrow> bool" where
  "completed (Completed s) = True"
| "completed (Faulted e s) = False"

text \<open>Sequencing of two statements: the second runs only when the first did not throw.\<close>

fun andThen :: "outcome \<Rightarrow> (page \<Rightarrow> outcome) \<Rightarrow> outcome" where
  "andThen (Completed s) f = f s"
| "andThen (Faulted e s) f = Faulted e s"

text \<open>The loop \<^verbatim>\<open>for (const x of xs) f(x)\<close> over the elements \<open>xs\<close>.\<close>

fun forEach :: "('a \<Rightarrow> page \<Rightarrow> outcome) \<Rightarrow> 'a list \<Rightarrow> page \<Rightarrow> outcome" where
  "forEach f [] s = Completed s"
| "forEach f (x # xs) s = andThen (f x s) (forEach f xs)"

section \<open>Rendering\<close>

text \<open>
  Modelled from the spec: the functions \<^verbatim>\<open>renderTitle\<close>, \<^verbatim>\<open>renderContent\<close> and
  \<^verbatim>\<open>renderFavicon\<close> of \<^verbatim>\<open>renderer.js\<close>, which is not among the sources. The spec
  (4.5) gives their contract only: from the win rate (and the disconnected flag) each
  returns a string. They are a parameter of the model; a call either returns its string
  or throws.
\<close>

record renderer =
  renderTitle :: "jsnumber \<Rightarrow> js_error + string"
  renderContent :: "jsnumber \<Rightarrow> bool \<Rightarrow> js_error + string"
  renderFavicon :: "jsnumber \<Rightarrow> js_error + string"

text \<open>
  Modelled from the spec: the renderer contract of 4.5 at one win rate and flag, "must
  return a title string, an HTML body string, and a favicon URL" and "must not crash".
\<close>

fun returned :: "js_error + string \<Rightarrow> bool" where
  "returned (Inr x) = True"
| "returned (Inl e) = False"

definition returns_at :: "renderer \<Rightarrow> jsnumber \<Rightarrow> bool \<Rightarrow> bool" where
  "returns_at R w h =
     (returned (renderTitle R w) \<and> returned (renderContent R w h) \<and>
      returned (renderFavicon R w))"

text \<open>The local \<^verbatim>\<open>winRate\<close> of \<^verbatim>\<open>render\<close>.\<close>

definition winRate :: "page \<Rightarrow> jsnumber" where
  "winRate s = js_div (victoryCount s) (lossCount s + victoryCount s)"

definition record_render :: "page \<Rightarrow> page" where
  "record_render s =
     s\<lparr>renders := renders s @
        [\<lparr>seen_victoryCount = victoryCount s, seen_lossCount = lossCount s,
          seen_hint = showDisconnectedHint s\<rparr>]\<rparr>"

text \<open>
  \<^verbatim>\<open>render\<close>: three assignments in the source's order; the page is taken to hold the
  \<^verbatim>\<open>#favicon\<close> element the third one writes.
\<close>

definition render :: "renderer \<Rightarrow> page \<Rightarrow> outcome" where
  "render R s =
     (let s0 = record_render s; w = winRate s in
      case renderTitle R w of
        Inl e \<Rightarrow> Faulted e s0
      | Inr t \<Rightarrow>
          (let s1 = s0\<lparr>title := t\<rparr> in
           case renderContent R w (showDisconnectedHint s) of
             Inl e \<Rightarrow> Faulted e s1
           | Inr c \<Rightarrow>
               (let s2 = s1\<lparr>innerHTML := c\<rparr> in
                case renderFavicon R w of
                  Inl e \<Rightarrow> Faulted e s2
                | Inr f \<Rightarrow> Completed (s2\<lparr>favicon_href := f\<rparr>))))"

section \<open>Battle result parsing\<close>

definition getBattleType :: "jsval \<Rightarrow> jsval" where
  "getBattleType battleResult =
     (if \<not> truthy battleResult then battleResult
      else let common = get battleResult ''common'' in
        if \<not> truthy common then common else get common ''bonusType'')"

definition isRandomBattle :: "jsval \<Rightarrow> bool" where
  "isRandomBattle battleResult =
     (let battleType = getBattleType battleResult in
      strict_eq battleType RANDOM_BATTLE \<or> strict_eq battleType GRAND_BATTLE)"

definition getWinnerTeam :: "jsval \<Rightarrow> jsval" where
  "getWinnerTeam battleResult =
     (if \<not> truthy battleResult then battleResult
      else let common = get battleResult ''common'' in
        if \<not> truthy common then common else get common ''winnerTeam'')"

definition getTeam :: "jsval \<Rightarrow> jsval" where
  "getTeam battleResult =
     (if \<not> truthy battleResult then battleResult
      else let personal = get battleResult ''personal'' in
        if \<not> truthy personal then personal
        else let avatar = get personal ''avatar'' in
          if \<not> truthy avatar then avatar else get avatar ''team'')"

definition isVictory :: "jsval \<Rightarrow> bool" where
  "isVictory battleResult = strict_eq (getTeam battleResult) (getWinnerTeam battleResult)"

section \<open>Event handlers\<close>

definition onBattleResult :: "renderer \<Rightarrow> jsval \<Rightarrow> page \<Rightarrow> outcome" where
  "onBattleResult R battleResult s =
     (if \<not> isRandomBattle battleResult then Completed s
      else render R
        (if isVictory battleResult then s\<lparr>victoryCount := victoryCount s + 1\<rparr>
         else s\<lparr>lossCount := lossCount s + 1\<rparr>))"

definition onDisconnect :: "renderer \<Rightarrow> page \<Rightarrow> outcome" where
  "onDisconnect R s = render R (s\<lparr>showDisconnectedHint := True\<rparr>)"

definition console_error :: "string \<Rightarrow> jsval \<Rightarrow> page \<Rightarrow> page" where
  "console_error label v s = s\<lparr>console := console s @ [(label, v)]\<rparr>"

definition ws_send :: "jsval \<Rightarrow> page \<Rightarrow> page" where
  "ws_send v s = s\<lparr>sent := sent s @ [v]\<rparr>"

subsection \<open>Variant A: JSON RPC\<close>

definition onOpen_A :: "page \<Rightarrow> outcome" where
  "onOpen_A s =
     Completed (ws_send (Arr
       [Obj [(''jsonrpc'', Str ''2.0''), (''method'', Str ''get_battle_results''), (''id'', Num 1)],
        Obj [(''jsonrpc'', Str ''2.0''), (''method'', Str ''subscribe''), (''id'', Num 2)]]) s)"

definition onJsonRpcMessage :: "renderer \<Rightarrow> jsval \<Rightarrow> page \<Rightarrow> outcome" where
  "onJsonRpcMessage R message s =
     (if nullish message then Faulted TypeError s
      else if strict_eq (get message ''method'') (Str ''subscription'') then
        (let params = get message ''params'' in
         if nullish params then Faulted TypeError s
         else onBattleResult R (get params ''battleResult'') s)
      else if truthy (get message ''result'') \<and> strict_eq (get message ''id'') (Num 1) then
        (case iterate (get (get message ''result'') ''battleResults'') of
           None \<Rightarrow> Faulted TypeError s
         | Some battleResults \<Rightarrow> forEach (onBattleResult R) battleResults s)
      else if truthy (get message ''error'') then
        Completed (console_error ''Error:'' (get message ''error'') s)
      else Completed s)"

text \<open>
  The argument is the result of \<^verbatim>\<open>JSON.parse(event.data)\<close>: \<open>None\<close> when the data is not
  JSON and the parse throws.
\<close>

definition onMessage_A :: "renderer \<Rightarrow> jsval option \<Rightarrow> page \<Rightarrow> outcome" where
  "onMessage_A R data s =
     (case data of
        None \<Rightarrow> Faulted SyntaxError s
      | Some parsed \<Rightarrow>
          (case parsed of
             Arr messages \<Rightarrow> forEach (onJsonRpcMessage R) messages s
           | _ \<Rightarrow> onJsonRpcMessage R parsed s))"

subsection \<open>Variant B: tagged envelope\<close>

definition onOpen_B :: "page \<Rightarrow> outcome" where
  "onOpen_B s =
     Completed
       (ws_send (Obj [(''messageType'', Str ''SUBSCRIBE''), (''payload'', Obj [])])
         (ws_send (Obj [(''messageType'', Str ''REPLAY''), (''payload'', Obj [])]) s))"

definition onMessage_B :: "renderer \<Rightarrow> jsval option \<Rightarrow> page \<Rightarrow> outcome" where
  "onMessage_B R data s =
     (case data of
        None \<Rightarrow> Faulted SyntaxError s
      | Some message \<Rightarrow>
          if nullish message then Faulted TypeError s
          else if strict_eq (get message ''messageType'') (Str ''BATTLE_RESULT'') then
            (let payload = get message ''payload'' in
             if nullish payload then Faulted TypeError s
             else onBattleResult R (get payload ''result'') s)
          else if strict_eq (get message ''messageType'') (Str ''ERROR'') then
            Completed (console_error ''Protocol Error:'' (get message ''payload'') s)
          else Completed s)"

section \<open>Startup and the event loop\<close>

datatype variant = VariantA | VariantB

datatype event = Open | Message "jsval option" | Close | Error

text \<open>
  The globals as the script initialises them, on a page whose document shows \<open>t\<close>, \<open>b\<close>
  and \<open>f\<close>.
\<close>

definition globals0 :: "string \<Rightarrow> string \<Rightarrow> string \<Rightarrow> page" where
  "globals0 t b f =
     \<lparr>victoryCount = 0, lossCount = 0, showDisconnectedHint = False,
      title = t, innerHTML = b, favicon_href = f,
      ws_constructed = False, sent = [], console = [], renders = []\<rparr>"

text \<open>
  The top level of the script: \<^verbatim>\<open>render()\<close>, then \<^verbatim>\<open>new WebSocket\<close> and the four
  \<^verbatim>\<open>addEventListener\<close> calls. When \<^verbatim>\<open>render\<close> throws, the script stops there.
\<close>

definition new_WebSocket :: "page \<Rightarrow> outcome" where
  "new_WebSocket s = Completed (s\<lparr>ws_constructed := True\<rparr>)"

definition startup :: "renderer \<Rightarrow> string \<Rightarrow> string \<Rightarrow> string \<Rightarrow> outcome" where
  "startup R t b f = andThen (render R (globals0 t b f)) new_WebSocket"

text \<open>The listener that \<^verbatim>\<open>addEventListener\<close> bound to each event.\<close>

fun handle :: "variant \<Rightarrow> renderer \<Rightarrow> event \<Rightarrow> page \<Rightarrow> outcome" where
  "handle VariantA R Open s = onOpen_A s"
| "handle VariantB R Open s = onOpen_B s"
| "handle VariantA R (Message d) s = onMessage_A R d s"
| "handle VariantB R (Message d) s = onMessage_B R d s"
| "handle V R Close s = onDisconnect R s"
| "handle V R Error s = onDisconnect R s"

text \<open>
  The host's event loop: an event reaches its listener only once the socket exists; an
  exception of a listener is reported and the page goes on in the state reached.
\<close>

definition dispatch :: "variant \<Rightarrow> renderer \<Rightarrow> event \<Rightarrow> page \<Rightarrow> page" where
  "dispatch V R e s = (if ws_constructed s then after (handle V R e s) else s)"

fun run :: "variant \<Rightarrow> renderer \<Rightarrow> page \<Rightarrow> event list \<Rightarrow> page" where
  "run V R s [] = s"
| "run V R s (e # es) = run V R (dispatch V R e s) es"

section \<open>Vocabulary of the properties\<close>

subsection \<open>Paths and scope\<close>

text \<open>
  The value found by following property names from a value; \<^verbatim>\<open>undefined\<close> as soon as a
  name is missing.
\<close>

definition at_path :: "jsval \<Rightarrow> string list \<Rightarrow> jsval" where
  "at_path v names = foldl get v names"

text \<open>A battle result is in scope when its \<^verbatim>\<open>common.bonusType\<close> is 1 or 24.\<close>

definition in_scope :: "jsval \<Rightarrow> bool" where
  "in_scope battleResult =
     (at_path battleResult [''common'', ''bonusType''] = Num 1 \<or>
      at_path battleResult [''common'', ''bonusType''] = Num 24)"

text \<open>
  A value that is present but falsy: \<^verbatim>\<open>null\<close>, \<^verbatim>\<open>false\<close>, \<^verbatim>\<open>0\<close> or the empty string.
\<close>

fun null_like :: "jsval \<Rightarrow> bool" where
  "null_like Null = True"
| "null_like (Bool b) = (\<not> b)"
| "null_like (Num q) = (q = 0)"
| "null_like (Str s) = (s = [])"
| "null_like v = False"

text \<open>
  The path to the player's team is cut short when \<^verbatim>\<open>personal\<close> or
  \<^verbatim>\<open>personal.avatar\<close> holds such a value, rather than being missing or an object.
\<close>

definition team_cut_short :: "jsval \<Rightarrow> bool" where
  "team_cut_short battleResult =
     (null_like (at_path battleResult [''personal'']) \<or>
      null_like (at_path battleResult [''personal'', ''avatar'']))"

subsection \<open>Classes of Variant A messages\<close>

text \<open>
  The class of a message, by the tests of \<^verbatim>\<open>onJsonRpcMessage\<close> in the order in which it
  makes them.
\<close>

datatype rpc_class = Notification | HistoryReply | ErrorReport | Ignored

definition classify :: "jsval \<Rightarrow> rpc_class" where
  "classify message =
     (if strict_eq (get message ''method'') (Str ''subscription'') then Notification
      else if truthy (get message ''result'') \<and> strict_eq (get message ''id'') (Num 1)
        then HistoryReply
      else if truthy (get message ''error'') then ErrorReport
      else Ignored)"

subsection \<open>The handshake\<close>

text \<open>
  The frames of the handshake as the specification lists them (section 6), and the
  outbound traffic it allows for a sequence of events: one handshake per open event.
\<close>

fun handshake :: "variant \<Rightarrow> jsval list" where
  "handshake VariantA =
     [Arr [Obj [(''jsonrpc'', Str ''2.0''), (''method'', Str ''get_battle_results''),
                (''id'', Num 1)],
           Obj [(''jsonrpc'', Str ''2.0''), (''method'', Str ''subscribe''), (''id'', Num 2)]]]"
| "handshake VariantB =
     [Obj [(''messageType'', Str ''REPLAY''), (''payload'', Obj [])],
      Obj [(''messageType'', Str ''SUBSCRIBE''), (''payload'', Obj [])]]"

definition outbound :: "variant \<Rightarrow> event list \<Rightarrow> jsval list" where
  "outbound V es = concat (map (\<lambda>e. if e = Open then handshake V else []) es)"

subsection \<open>The Variant A decoder in the words of the specification\<close>

text \<open>
  Section 4.2 of the specification: a frame is an array of response objects or a single
  object, "treated as a one-element batch"; an object is (i) a notification, "extract
  \<^verbatim>\<open>params.battleResult\<close>", (ii) a historical-results reply that "has \<^verbatim>\<open>result\<close> and
  \<^verbatim>\<open>id === 1\<close>, extract each element of \<^verbatim>\<open>result.battleResults\<close>", (iii) an error that
  "has \<^verbatim>\<open>error\<close>, logged and otherwise ignored", or (iv) anything else, ignored. The
  decoder "yields a sequence", "preserving arrival order". These definitions follow that
  text, not the source; \<open>has\<close> is the presence of the member.
\<close>

datatype extracted = BattleResult jsval | ServerError jsval

definition has :: "jsval \<Rightarrow> string \<Rightarrow> bool" where
  "has message name = (get message name \<noteq> Undefined)"

fun elements :: "jsval \<Rightarrow> jsval list" where
  "elements (Arr xs) = xs"
| "elements v = []"

fun is_array :: "jsval \<Rightarrow> bool" where
  "is_array (Arr xs) = True"
| "is_array v = False"

definition decode_object :: "jsval \<Rightarrow> extracted list" where
  "decode_object message =
     (if get message ''method'' = Str ''subscription'' then
        [BattleResult (at_path message [''params'', ''battleResult''])]
      else if has message ''result'' \<and> get message ''id'' = Num 1 then
        map BattleResult (elements (at_path message [''result'', ''battleResults'']))
      else if has message ''error'' then [ServerError (get message ''error'')]
      else [])"

definition decode_frame :: "jsval \<Rightarrow> extracted list" where
  "decode_frame frame =
     (case frame of
        Arr messages \<Rightarrow> concat (map decode_object messages)
      | _ \<Rightarrow> decode_object frame)"

text \<open>
  What is done with one item of the sequence: a battle result goes to
  \<^verbatim>\<open>onBattleResult\<close>, an error to \<^verbatim>\<open>console.error\<close>.
\<close>

fun process :: "renderer \<Rightarrow> extracted \<Rightarrow> page \<Rightarrow> outcome" where
  "process R (BattleResult battleResult) s = onBattleResult R battleResult s"
| "process R (ServerError v) s = Completed (console_error ''Error:'' v s)"

text \<open>
  The "expected shape" of section 4.2, outside of which the source throws a TypeError or
  tests truthiness where the specification says "has": a message is not \<^verbatim>\<open>null\<close>; a
  notification has \<^verbatim>\<open>params\<close>; the \<^verbatim>\<open>result\<close> of the reply to request 1 is truthy and
  its \<^verbatim>\<open>battleResults\<close> is an array; the \<^verbatim>\<open>error\<close> of an error message is truthy.
\<close>

definition conforms :: "jsval \<Rightarrow> bool" where
  "conforms message =
     (\<not> nullish message \<and>
      (if get message ''method'' = Str ''subscription'' then
         \<not> nullish (get message ''params'')
       else if has message ''result'' \<and> get message ''id'' = Num 1 then
         truthy (get message ''result'') \<and>
         is_array (at_path message [''result'', ''battleResults''])
       else if has message ''error'' then truthy (get message ''error'')
       else True))"

definition conforms_frame :: "jsval \<Rightarrow> bool" where
  "conforms_frame frame =
     (case frame of Arr messages \<Rightarrow> list_all conforms messages | _ \<Rightarrow> conforms frame)"

subsection \<open>What a handler may change\<close>

text \<open>
  What handling an inbound message may change: the counters grow, the render history is
  extended by calls that saw the unchanged flag; the flag, the socket and the sent frames
  stay as they are.
\<close>

definition hears :: "page \<Rightarrow> page \<Rightarrow> bool" where
  "hears s s' =
     (victoryCount s \<le> victoryCount s' \<and> lossCount s \<le> lossCount s' \<and>
      showDisconnectedHint s' = showDisconnectedHint s \<and>
      ws_constructed s' = ws_constructed s \<and> sent s' = sent s \<and>
      (\<exists>new. renders s' = renders s @ new \<and>
         (\<forall>c \<in> set new. seen_hint c = showDisconnectedHint s)))"

text \<open>
  What handling any event may change: the counters grow, a raised flag stays raised, and
  once it is raised every further render call sees it.
\<close>

definition advances :: "page \<Rightarrow> page \<Rightarrow> bool" where
  "advances s s' =
     (victoryCount s \<le> victoryCount s' \<and> lossCount s \<le> lossCount s' \<and>
      (showDisconnectedHint s \<longrightarrow> showDisconnectedHint s') \<and>
      ws_constructed s' = ws_constructed s \<and>
      (\<exists>new. renders s' = renders s @ new \<and>
         (showDisconnectedHint s \<longrightarrow> (\<forall>c \<in> set new. seen_hint c))))"

subsection \<open>Concrete inputs\<close>

text \<open>
  A renderer that always returns, and the page it leaves after startup, on which the
  model is evaluated.
\<close>

definition sample_renderer :: renderer where
  "sample_renderer =
     \<lparr>renderTitle = (\<lambda>w. Inr ''title''),
      renderContent = (\<lambda>w h. Inr (if h then ''disconnected'' else ''content'')),
      renderFavicon = (\<lambda>w. Inr ''favicon'')\<rparr>"

definition ready :: page where
  "ready = after (startup sample_renderer [] [] [])"

text \<open>
  The battle results of the specification's scenarios (section 8): a won random battle, a
  lost grand battle, and a battle of type 5.
\<close>

definition sample_victory :: jsval where
  "sample_victory =
     Obj [(''common'', Obj [(''bonusType'', Num 1), (''winnerTeam'', Num 1)]),
          (''personal'', Obj [(''avatar'', Obj [(''team'', Num 1)])])]"

definition sample_loss :: jsval where
  "sample_loss =
     Obj [(''common'', Obj [(''bonusType'', Num 24), (''winnerTeam'', Num 2)]),
          (''personal'', Obj [(''avatar'', Obj [(''team'', Num 1)])])]"

definition sample_other :: jsval where
  "sample_other =
     Obj [(''common'', Obj [(''bonusType'', Num 5), (''winnerTeam'', Num 1)]),
          (''personal'', Obj [(''avatar'', Obj [(''team'', Num 1)])])]"

text \<open>
  A Variant A notification carrying a battle result, an error object, and a batch: the
  reply to request 1 with two results, the reply to request 2, an error report and a
  notification.
\<close>

definition notification :: "jsval \<Rightarrow> jsval" where
  "notification battleResult =
     Obj [(''jsonrpc'', Str ''2.0''), (''method'', Str ''subscription''),
          (''params'', Obj [(''battleResult'', battleResult)])]"

definition sample_error :: jsval where
  "sample_error = Obj [(''code'', Num 7), (''message'', Str ''failure'')]"

definition sample_batch :: jsval where
  "sample_batch =
     Arr [Obj [(''jsonrpc'', Str ''2.0''),
               (''result'', Obj [(''battleResults'', Arr [sample_loss, sample_other])]),
               (''id'', Num 1)],
          Obj [(''jsonrpc'', Str ''2.0''), (''result'', Null), (''id'', Num 2)],
          Obj [(''jsonrpc'', Str ''2.0''), (''error'', sample_error), (''id'', Num 3)],
          notification sample_victory]"

section \<open>Basic facts\<close>

subsection \<open>Values\<close>

lemma strict_eq_Num: "strict_eq v (Num q) = (v = Num q)"
  by (cases v) simp_all

lemma strict_eq_Str: "strict_eq v (Str x) = (v = Str x)"
  by (cases v) simp_all

lemma get_defined_truthy: "get v name \<noteq> Undefined \<Longrightarrow> truthy v"
  by (cases v) simp_all

lemma get_truthy_not_nullish: "truthy (get v name) \<Longrightarrow> \<not> nullish v"
  by (cases v) simp_all

lemma strict_eq_get_Str_not_nullish: "strict_eq (get v name) (Str x) \<Longrightarrow> \<not> nullish v"
  by (cases v) simp_all

lemma truthy_has: "truthy (get m name) \<Longrightarrow> has m name"
  by (auto simp: has_def)

lemma is_array_iterate: "is_array v \<Longrightarrow> iterate v = Some (elements v)"
  by (cases v) simp_all

lemma null_like_iff: "null_like v = (v \<noteq> Undefined \<and> \<not> truthy v)"
  by (cases v) simp_all

lemma strict_eq_Undefined: "strict_eq v Undefined = (v = Undefined)"
  by (cases v) simp_all

subsection \<open>Battle result parsing\<close>

lemma getBattleType_in_scope:
  "(getBattleType br = Num 1 \<or> getBattleType br = Num 24) = in_scope br"
proof (cases "truthy br \<and> truthy (get br ''common'')")
  case True
  then show ?thesis
    by (simp add: getBattleType_def in_scope_def at_path_def)
next
  case False
  have "\<not> in_scope br"
  proof
    assume "in_scope br"
    then have d: "get (get br ''common'') ''bonusType'' \<noteq> Undefined"
      by (auto simp: in_scope_def at_path_def)
    then have "truthy (get br ''common'')" by (rule get_defined_truthy)
    moreover from this have "truthy br"
      by (intro get_defined_truthy[of br "''common''"]) auto
    ultimately show False using False by simp
  qed
  moreover have "getBattleType br \<noteq> Num 1 \<and> getBattleType br \<noteq> Num 24"
    using False by (auto simp: getBattleType_def Let_def)
  ultimately show ?thesis by simp
qed

lemma isRandomBattle_in_scope: "isRandomBattle br = in_scope br"
  by (simp add: isRandomBattle_def RANDOM_BATTLE_def GRAND_BATTLE_def strict_eq_Num
      getBattleType_in_scope)

lemma in_scope_common:
  assumes "in_scope br"
  shows "truthy br" and "truthy (get br ''common'')"
proof -
  from assms have "get (get br ''common'') ''bonusType'' \<noteq> Undefined"
    by (auto simp: in_scope_def at_path_def)
  then show c: "truthy (get br ''common'')" by (rule get_defined_truthy)
  then have "get br ''common'' \<noteq> Undefined" by auto
  then show "truthy br" by (rule get_defined_truthy)
qed

lemma getTeam_at_path:
  assumes "at_path br [''personal'', ''avatar'', ''team''] \<noteq> Undefined"
  shows "getTeam br = at_path br [''personal'', ''avatar'', ''team'']"
proof -
  from assms have t: "get (get (get br ''personal'') ''avatar'') ''team'' \<noteq> Undefined"
    by (simp add: at_path_def)
  then have a: "truthy (get (get br ''personal'') ''avatar'')" by (rule get_defined_truthy)
  then have "get (get br ''personal'') ''avatar'' \<noteq> Undefined" by auto
  then have p: "truthy (get br ''personal'')" by (rule get_defined_truthy)
  then have "get br ''personal'' \<noteq> Undefined" by auto
  then have "truthy br" by (rule get_defined_truthy)
  with a p show ?thesis by (simp add: getTeam_def at_path_def)
qed

lemma getWinnerTeam_at_path:
  assumes "at_path br [''common'', ''winnerTeam''] \<noteq> Undefined"
  shows "getWinnerTeam br = at_path br [''common'', ''winnerTeam'']"
proof -
  from assms have "get (get br ''common'') ''winnerTeam'' \<noteq> Undefined"
    by (simp add: at_path_def)
  then have c: "truthy (get br ''common'')" by (rule get_defined_truthy)
  then have "get br ''common'' \<noteq> Undefined" by auto
  then have "truthy br" by (rule get_defined_truthy)
  with c show ?thesis by (simp add: getWinnerTeam_def at_path_def)
qed

lemma getWinnerTeam_in_scope:
  "in_scope br \<Longrightarrow> getWinnerTeam br = at_path br [''common'', ''winnerTeam'']"
  by (simp add: getWinnerTeam_def at_path_def in_scope_common)

lemma getTeam_absent:
  assumes "truthy br"
    and "at_path br [''personal'', ''avatar'', ''team''] = Undefined"
  shows "(getTeam br = Undefined) = (\<not> team_cut_short br)"
proof (cases "truthy (get br ''personal'')")
  case False
  then have "get (get br ''personal'') ''avatar'' = Undefined"
    by (cases "get br ''personal''") simp_all
  with False assms(1) show ?thesis
    by (simp add: getTeam_def team_cut_short_def at_path_def null_like_iff)
next
  case p: True
  show ?thesis
  proof (cases "truthy (get (get br ''personal'') ''avatar'')")
    case False
    with p assms(1) show ?thesis
      by (simp add: getTeam_def team_cut_short_def at_path_def null_like_iff)
  next
    case True
    with p assms show ?thesis
      by (simp add: getTeam_def team_cut_short_def at_path_def null_like_iff)
  qed
qed

subsection \<open>Sequencing\<close>

lemma andThen_forEach_Nil: "andThen r (forEach f []) = r"
  by (cases r) simp_all

lemma andThen_assoc: "andThen (andThen r g) h = andThen r (\<lambda>s. andThen (g s) h)"
  by (cases r) simp_all

lemma forEach_append: "forEach f (xs @ ys) s = andThen (forEach f xs s) (forEach f ys)"
proof (induction xs arbitrary: s)
  case Nil
  show ?case by simp
next
  case (Cons x xs)
  have "forEach f (xs @ ys) = (\<lambda>s. andThen (forEach f xs s) (forEach f ys))"
    by (rule ext) (rule Cons.IH)
  then show ?case by (simp add: andThen_assoc)
qed

lemma forEach_rel:
  assumes refl: "\<And>s. Q s s"
    and trans: "\<And>a b c. Q a b \<Longrightarrow> Q b c \<Longrightarrow> Q a c"
    and step: "\<And>x s. Q s (after (f x s))"
  shows "Q s (after (forEach f xs s))"
proof (induction xs arbitrary: s)
  case Nil
  show ?case by (simp add: refl)
next
  case (Cons x xs)
  show ?case
  proof (cases "f x s")
    case (Completed s1)
    with step[of s x] have "Q s s1" by simp
    moreover have "Q s1 (after (forEach f xs s1))" by (rule Cons.IH)
    ultimately show ?thesis using Completed by (simp add: trans)
  next
    case (Faulted e s1)
    with step[of s x] show ?thesis by simp
  qed
qed

lemma forEach_completed:
  assumes "\<And>x s. completed (f x s)"
  shows "completed (forEach f xs s)"
proof (induction xs arbitrary: s)
  case Nil
  show ?case by simp
next
  case (Cons x xs)
  from assms[of x s] obtain s1 where "f x s = Completed s1"
    by (cases "f x s") simp_all
  with Cons.IH[of s1] show ?case by simp
qed

subsection \<open>Rendering\<close>

lemma render_globals:
  "victoryCount (after (render R s)) = victoryCount s"
  "lossCount (after (render R s)) = lossCount s"
  "showDisconnectedHint (after (render R s)) = showDisconnectedHint s"
  "ws_constructed (after (render R s)) = ws_constructed s"
  "sent (after (render R s)) = sent s"
  "console (after (render R s)) = console s"
  by (simp_all add: render_def record_render_def Let_def split: sum.splits)

lemma render_renders:
  "renders (after (render R s)) =
     renders s @ [\<lparr>seen_victoryCount = victoryCount s, seen_lossCount = lossCount s,
                   seen_hint = showDisconnectedHint s\<rparr>]"
  by (simp add: render_def record_render_def Let_def split: sum.splits)

lemma returnedE: "returned r \<Longrightarrow> r = Inr (projr r)"
  by (cases r) simp_all

lemma render_returns:
  assumes "returns_at R (winRate s) (showDisconnectedHint s)"
  shows "render R s =
     Completed (record_render s\<lparr>title := projr (renderTitle R (winRate s)),
       innerHTML := projr (renderContent R (winRate s) (showDisconnectedHint s)),
       favicon_href := projr (renderFavicon R (winRate s))\<rparr>)"
proof -
  from assms obtain t c f where
    "renderTitle R (winRate s) = Inr t"
    "renderContent R (winRate s) (showDisconnectedHint s) = Inr c"
    "renderFavicon R (winRate s) = Inr f"
    unfolding returns_at_def by (metis returnedE)
  then show ?thesis by (simp add: render_def Let_def)
qed

lemma render_throws:
  assumes "\<not> returns_at R (winRate s) (showDisconnectedHint s)"
  shows "\<not> completed (render R s)"
  using assms
  by (auto simp: render_def returns_at_def Let_def split: sum.splits)

lemma winRate_NaN: "(winRate s = NaN) = (victoryCount s = 0 \<and> lossCount s = 0)"
  by (simp add: winRate_def js_div_def)

subsection \<open>Processing a battle result\<close>

lemma onBattleResult_victory:
  assumes "isRandomBattle br" "isVictory br"
  shows "victoryCount (after (onBattleResult R br s)) = victoryCount s + 1"
    and "lossCount (after (onBattleResult R br s)) = lossCount s"
  using assms by (simp_all add: onBattleResult_def render_globals)

lemma onBattleResult_loss:
  assumes "isRandomBattle br" "\<not> isVictory br"
  shows "victoryCount (after (onBattleResult R br s)) = victoryCount s"
    and "lossCount (after (onBattleResult R br s)) = lossCount s + 1"
  using assms by (simp_all add: onBattleResult_def render_globals)

lemma onBattleResult_out_of_scope:
  "\<not> isRandomBattle br \<Longrightarrow> onBattleResult R br s = Completed s"
  by (simp add: onBattleResult_def)

lemma onBattleResult_console: "console (after (onBattleResult R br s)) = console s"
  by (simp add: onBattleResult_def render_globals)

lemma onBattleResult_completed:
  assumes "\<And>w h. returns_at R w h"
  shows "completed (onBattleResult R br s)"
  by (simp add: onBattleResult_def render_returns[OF assms])

lemma console_error_globals:
  "victoryCount (console_error label v s) = victoryCount s"
  "lossCount (console_error label v s) = lossCount s"
  "showDisconnectedHint (console_error label v s) = showDisconnectedHint s"
  "renders (console_error label v s) = renders s"
  "sent (console_error label v s) = sent s"
  "console (console_error label v s) = console s @ [(label, v)]"
  by (simp_all add: console_error_def)

subsection \<open>What the handlers change\<close>

lemma hears_refl: "hears s s"
  by (simp add: hears_def)

lemma hears_trans: "hears a b \<Longrightarrow> hears b c \<Longrightarrow> hears a c"
  unfolding hears_def by (elim conjE exE) (simp, blast)

lemma advances_refl: "advances s s"
  by (simp add: advances_def)

lemma advances_trans: "advances a b \<Longrightarrow> advances b c \<Longrightarrow> advances a c"
  unfolding advances_def by (elim conjE exE) (simp, auto)

lemma hears_advances: "hears s s' \<Longrightarrow> advances s s'"
  unfolding hears_def advances_def by auto

lemma onBattleResult_hears: "hears s (after (onBattleResult R br s))"
  by (simp add: onBattleResult_def hears_def render_globals render_renders)

lemma forEach_onBattleResult_hears: "hears s (after (forEach (onBattleResult R) brs s))"
  by (rule forEach_rel[where Q = hears]) (auto intro: hears_refl hears_trans onBattleResult_hears)

lemma forEach_onBattleResult_console:
  "console (after (forEach (onBattleResult R) brs s)) = console s"
  by (rule forEach_rel[where Q = "\<lambda>s s'. console s' = console s"])
     (simp_all add: onBattleResult_console)

lemma console_error_hears: "hears s (console_error label v s)"
  by (simp add: hears_def console_error_def)

lemma onJsonRpcMessage_hears: "hears s (after (onJsonRpcMessage R m s))"
  by (simp add: onJsonRpcMessage_def Let_def hears_refl onBattleResult_hears
      forEach_onBattleResult_hears console_error_hears split: option.splits)

lemma onMessage_A_hears: "hears s (after (onMessage_A R d s))"
proof (cases d)
  case None
  then show ?thesis by (simp add: onMessage_A_def hears_refl)
next
  case (Some parsed)
  have "hears s (after (forEach (onJsonRpcMessage R) ms s))" for ms
    by (rule forEach_rel[where Q = hears])
       (auto intro: hears_refl hears_trans onJsonRpcMessage_hears)
  with Some show ?thesis
    by (cases parsed) (simp_all add: onMessage_A_def onJsonRpcMessage_hears)
qed

lemma onMessage_B_hears: "hears s (after (onMessage_B R d s))"
  by (simp add: onMessage_B_def Let_def hears_refl onBattleResult_hears console_error_hears
      split: option.splits)

lemma onDisconnect_advances: "advances s (after (onDisconnect R s))"
  by (simp add: onDisconnect_def advances_def render_globals render_renders)

lemma onOpen_A_advances: "advances s (after (onOpen_A s))"
  by (simp add: onOpen_A_def ws_send_def advances_def)

lemma onOpen_B_advances: "advances s (after (onOpen_B s))"
  by (simp add: onOpen_B_def ws_send_def advances_def)

lemma handle_advances: "advances s (after (handle V R e s))"
proof (cases e)
  case Open
  then show ?thesis by (cases V) (simp_all add: onOpen_A_advances onOpen_B_advances)
next
  case (Message d)
  then show ?thesis
    by (cases V) (simp_all add: hears_advances onMessage_A_hears onMessage_B_hears)
next
  case Close
  then show ?thesis by (cases V) (simp_all add: onDisconnect_advances)
next
  case Error
  then show ?thesis by (cases V) (simp_all add: onDisconnect_advances)
qed

lemma dispatch_advances: "advances s (dispatch V R e s)"
  by (simp add: dispatch_def handle_advances advances_refl)

lemma run_advances: "advances s (run V R s es)"
proof (induction es arbitrary: s)
  case Nil
  show ?case by (simp add: advances_refl)
next
  case (Cons e es)
  have "advances s (dispatch V R e s)" by (rule dispatch_advances)
  moreover have "advances (dispatch V R e s) (run V R (dispatch V R e s) es)" by (rule Cons.IH)
  ultimately show ?case by (simp add: advances_trans[of s "dispatch V R e s"])
qed

subsection \<open>Outbound frames\<close>

lemma handle_Open_sent: "sent (after (handle V R Open s)) = sent s @ handshake V"
  by (cases V) (simp_all add: onOpen_A_def onOpen_B_def ws_send_def)

lemma handle_other_sent: "e \<noteq> Open \<Longrightarrow> sent (after (handle V R e s)) = sent s"
proof (cases e)
  case (Message d)
  have "sent (after (onMessage_A R d s)) = sent s" "sent (after (onMessage_B R d s)) = sent s"
    using onMessage_A_hears[of s R d] onMessage_B_hears[of s R d] by (simp_all add: hears_def)
  with Message show ?thesis by (cases V) simp_all
qed (simp_all add: onDisconnect_def render_globals)

lemma handle_ws_constructed: "ws_constructed (after (handle V R e s)) = ws_constructed s"
  using handle_advances[of s V R e] by (simp add: advances_def)

lemma run_sent:
  "sent (run V R s es) = sent s @ (if ws_constructed s then outbound V es else [])"
proof (induction es arbitrary: s)
  case Nil
  show ?case by (simp add: outbound_def)
next
  case (Cons e es)
  show ?case
  proof (cases "ws_constructed s")
    case False
    with Cons.IH[of s] show ?thesis by (simp add: dispatch_def)
  next
    case True
    then have d: "dispatch V R e s = after (handle V R e s)" by (simp add: dispatch_def)
    have w: "ws_constructed (after (handle V R e s))"
      using True by (simp add: handle_ws_constructed)
    have "sent (after (handle V R e s)) = sent s @ (if e = Open then handshake V else [])"
      by (simp add: handle_Open_sent handle_other_sent)
    with Cons.IH[of "after (handle V R e s)"] d w True show ?thesis
      by (simp add: outbound_def)
  qed
qed

subsection \<open>The decoder\<close>

lemma forEach_map_BattleResult:
  "forEach (process R) (map BattleResult brs) s = forEach (onBattleResult R) brs s"
proof (induction brs arbitrary: s)
  case Nil
  show ?case by simp
next
  case (Cons br brs)
  have "forEach (process R) (map BattleResult brs) = forEach (onBattleResult R) brs"
    by (rule ext) (rule Cons.IH)
  then show ?case by simp
qed

lemma onJsonRpcMessage_decode:
  assumes "conforms m"
  shows "onJsonRpcMessage R m s = forEach (process R) (decode_object m) s"
proof -
  from assms have nn: "\<not> nullish m" by (simp add: conforms_def)
  show ?thesis
  proof (cases "get m ''method'' = Str ''subscription''")
    case True
    with assms have "\<not> nullish (get m ''params'')" by (simp add: conforms_def)
    with True nn show ?thesis
      by (simp add: onJsonRpcMessage_def decode_object_def strict_eq_Str at_path_def
          andThen_forEach_Nil)
  next
    case notif: False
    show ?thesis
    proof (cases "has m ''result'' \<and> get m ''id'' = Num 1")
      case True
      with assms notif have t: "truthy (get m ''result'')"
        and a: "is_array (at_path m [''result'', ''battleResults''])"
        by (simp_all add: conforms_def)
      from a have "iterate (get (get m ''result'') ''battleResults'') =
          Some (elements (at_path m [''result'', ''battleResults'']))"
        by (simp add: is_array_iterate at_path_def)
      with True notif nn t show ?thesis
        by (simp add: onJsonRpcMessage_def decode_object_def strict_eq_Str strict_eq_Num
            forEach_map_BattleResult)
    next
      case hist: False
      then have c: "\<not> (truthy (get m ''result'') \<and> strict_eq (get m ''id'') (Num 1))"
        by (auto simp: strict_eq_Num dest: truthy_has)
      show ?thesis
      proof (cases "has m ''error''")
        case True
        with assms notif hist have "truthy (get m ''error'')" by (simp add: conforms_def)
        with True notif hist c nn show ?thesis
          by (auto simp: onJsonRpcMessage_def decode_object_def strict_eq_Str)
      next
        case False
        then have "\<not> truthy (get m ''error'')" by (auto dest: truthy_has)
        with False notif hist c nn show ?thesis
          by (auto simp: onJsonRpcMessage_def decode_object_def strict_eq_Str)
      qed
    qed
  qed
qed

lemma forEach_onJsonRpcMessage_decode:
  "list_all conforms ms \<Longrightarrow>
   forEach (onJsonRpcMessage R) ms s = forEach (process R) (concat (map decode_object ms)) s"
proof (induction ms arbitrary: s)
  case Nil
  show ?case by simp
next
  case (Cons m ms)
  then have "forEach (onJsonRpcMessage R) ms =
      forEach (process R) (concat (map decode_object ms))"
    by (intro ext) simp
  with Cons.prems show ?case
    by (simp add: forEach_append onJsonRpcMessage_decode)
qed

lemma process_completed:
  assumes "\<And>w h. returns_at R w h"
  shows "completed (process R d s)"
  by (cases d) (simp_all add: onBattleResult_completed[OF assms])

subsection \<open>Evaluation on the concrete inputs\<close>

lemma ready_eq:
  "ready = \<lparr>victoryCount = 0, lossCount = 0, showDisconnectedHint = False,
      title = ''title'', innerHTML = ''content'', favicon_href = ''favicon'',
      ws_constructed = True, sent = [], console = [],
      renders = [\<lparr>seen_victoryCount = 0, seen_lossCount = 0, seen_hint = False\<rparr>]\<rparr>"
  by (simp add: ready_def startup_def render_def record_render_def winRate_def js_div_def
      globals0_def sample_renderer_def new_WebSocket_def)

lemma sample_scope:
  "in_scope sample_victory" "in_scope sample_loss" "\<not> in_scope sample_other"
  by (simp_all add: in_scope_def at_path_def sample_victory_def sample_loss_def
      sample_other_def)

lemma sample_isVictory: "isVictory sample_victory" "\<not> isVictory sample_loss"
  by (simp_all add: isVictory_def getTeam_def getWinnerTeam_def sample_victory_def
      sample_loss_def)

lemma render_sample_renderer:
  "render sample_renderer s =
     Completed (record_render s\<lparr>title := ''title'',
       innerHTML := (if showDisconnectedHint s then ''disconnected'' else ''content''),
       favicon_href := ''favicon''\<rparr>)"
  by (simp add: render_def sample_renderer_def Let_def)

lemma sample_renderer_returns: "returns_at sample_renderer w h"
  by (simp add: returns_at_def sample_renderer_def)

section \<open>The claims\<close>

subsection \<open>C1\<close>

text \<open>
  C1, as stated, fails: the in-scope result \<^verbatim>\<open>{"common":{"bonusType":1}}\<close> has neither
  \<^verbatim>\<open>personal.avatar.team\<close> nor \<^verbatim>\<open>common.winnerTeam\<close>, yet \<open>isVictory\<close> returns true for
  it and processing it increments \<open>victoryCount\<close>, not \<open>lossCount\<close>.
\<close>

theorem missing_teams_counted_as_victory:
  "in_scope (Obj [(''common'', Obj [(''bonusType'', Num 1)])]) \<and>
   at_path (Obj [(''common'', Obj [(''bonusType'', Num 1)])])
     [''personal'', ''avatar'', ''team''] = Undefined \<and>
   at_path (Obj [(''common'', Obj [(''bonusType'', Num 1)])])
     [''common'', ''winnerTeam''] = Undefined \<and>
   isVictory (Obj [(''common'', Obj [(''bonusType'', Num 1)])]) \<and>
   victoryCount (after (onBattleResult sample_renderer
      (Obj [(''common'', Obj [(''bonusType'', Num 1)])]) (globals0 [] [] []))) = 1 \<and>
   lossCount (after (onBattleResult sample_renderer
      (Obj [(''common'', Obj [(''bonusType'', Num 1)])]) (globals0 [] [] []))) = 0"
  by (simp add: in_scope_def at_path_def isVictory_def getTeam_def getWinnerTeam_def
      onBattleResult_def isRandomBattle_def getBattleType_def RANDOM_BATTLE_def
      render_globals globals0_def)

text \<open>
  C1, amended: take any in-scope battle result in which \<^verbatim>\<open>personal.avatar.team\<close> and
  \<^verbatim>\<open>common.winnerTeam\<close> are both absent. If \<^verbatim>\<open>personal\<close> or \<^verbatim>\<open>personal.avatar\<close> is
  present but falsy (\<^verbatim>\<open>null\<close>, \<^verbatim>\<open>false\<close>, \<^verbatim>\<open>0\<close> or the empty string), \<open>isVictory\<close>
  returns false and processing the result increments \<open>lossCount\<close> by exactly 1 and leaves
  \<open>victoryCount\<close> unchanged. In every other case \<open>isVictory\<close> returns true, and
  processing the result increments \<open>victoryCount\<close> by exactly 1 and leaves \<open>lossCount\<close>
  unchanged.
\<close>

theorem absent_teams_verdict:
  assumes "in_scope br"
    and "at_path br [''personal'', ''avatar'', ''team''] = Undefined"
    and "at_path br [''common'', ''winnerTeam''] = Undefined"
  shows "isVictory br = (\<not> team_cut_short br) \<and>
         (team_cut_short br \<longrightarrow>
            victoryCount (after (onBattleResult R br s)) = victoryCount s \<and>
            lossCount (after (onBattleResult R br s)) = lossCount s + 1) \<and>
         (\<not> team_cut_short br \<longrightarrow>
            victoryCount (after (onBattleResult R br s)) = victoryCount s + 1 \<and>
            lossCount (after (onBattleResult R br s)) = lossCount s)"
proof -
  from assms(1) have t: "truthy br" by (rule in_scope_common)
  from assms(1,3) have "getWinnerTeam br = Undefined"
    by (simp add: getWinnerTeam_in_scope)
  then have "isVictory br = (getTeam br = Undefined)"
    by (simp add: isVictory_def strict_eq_Undefined)
  with getTeam_absent[OF t assms(2)]
  have v: "isVictory br = (\<not> team_cut_short br)" by simp
  from assms(1) have r: "isRandomBattle br" by (simp add: isRandomBattle_in_scope)
  from v r show ?thesis
    by (simp add: onBattleResult_victory onBattleResult_loss)
qed

theorem absent_teams_verdict_witness:
  "in_scope (Obj [(''common'', Obj [(''bonusType'', Num 24)]), (''personal'', Obj [])]) \<and>
   at_path (Obj [(''common'', Obj [(''bonusType'', Num 24)]), (''personal'', Obj [])])
     [''personal'', ''avatar'', ''team''] = Undefined \<and>
   at_path (Obj [(''common'', Obj [(''bonusType'', Num 24)]), (''personal'', Obj [])])
     [''common'', ''winnerTeam''] = Undefined \<and>
   \<not> team_cut_short
     (Obj [(''common'', Obj [(''bonusType'', Num 24)]), (''personal'', Obj [])]) \<and>
   isVictory (Obj [(''common'', Obj [(''bonusType'', Num 24)]), (''personal'', Obj [])]) \<and>
   victoryCount (after (onBattleResult sample_renderer
     (Obj [(''common'', Obj [(''bonusType'', Num 24)]), (''personal'', Obj [])])
     (globals0 [] [] []))) = 1 \<and>
   lossCount (after (onBattleResult sample_renderer
     (Obj [(''common'', Obj [(''bonusType'', Num 24)]), (''personal'', Obj [])])
     (globals0 [] [] []))) = 0 \<and>
   in_scope (Obj [(''common'', Obj [(''bonusType'', Num 1)]), (''personal'', Null)]) \<and>
   at_path (Obj [(''common'', Obj [(''bonusType'', Num 1)]), (''personal'', Null)])
     [''personal'', ''avatar'', ''team''] = Undefined \<and>
   at_path (Obj [(''common'', Obj [(''bonusType'', Num 1)]), (''personal'', Null)])
     [''common'', ''winnerTeam''] = Undefined \<and>
   team_cut_short (Obj [(''common'', Obj [(''bonusType'', Num 1)]), (''personal'', Null)]) \<and>
   \<not> isVictory (Obj [(''common'', Obj [(''bonusType'', Num 1)]), (''personal'', Null)]) \<and>
   victoryCount (after (onBattleResult sample_renderer
     (Obj [(''common'', Obj [(''bonusType'', Num 1)]), (''personal'', Null)])
     (globals0 [] [] []))) = 0 \<and>
   lossCount (after (onBattleResult sample_renderer
     (Obj [(''common'', Obj [(''bonusType'', Num 1)]), (''personal'', Null)])
     (globals0 [] [] []))) = 1"
proof -
  let ?v = "Obj [(''common'', Obj [(''bonusType'', Num 24)]), (''personal'', Obj [])]"
  let ?l = "Obj [(''common'', Obj [(''bonusType'', Num 1)]), (''personal'', Null)]"
  have a: "in_scope ?v" "in_scope ?l" by (simp_all add: in_scope_def at_path_def)
  have b: "at_path ?v [''personal'', ''avatar'', ''team''] = Undefined"
    "at_path ?l [''personal'', ''avatar'', ''team''] = Undefined"
    by (simp_all add: at_path_def)
  have c: "at_path ?v [''common'', ''winnerTeam''] = Undefined"
    "at_path ?l [''common'', ''winnerTeam''] = Undefined"
    by (simp_all add: at_path_def)
  have d: "\<not> team_cut_short ?v" "team_cut_short ?l"
    by (simp_all add: team_cut_short_def at_path_def)
  show ?thesis
    using absent_teams_verdict[OF a(1) b(1) c(1), of sample_renderer "globals0 [] [] []"]
      absent_teams_verdict[OF a(2) b(2) c(2), of sample_renderer "globals0 [] [] []"]
      a b c d
    by (simp add: globals0_def)
qed

subsection \<open>C2\<close>

text \<open>
  C2: the two counters are natural numbers that start at 0. Processing an in-scope battle
  result increments exactly one of them by exactly 1 and leaves the other unchanged;
  processing an out-of-scope result (any other \<^verbatim>\<open>bonusType\<close>, or none) leaves both
  unchanged; and no event, in either variant, and no sequence of events ever decreases a
  counter.
\<close>

theorem counters_invariant:
  "victoryCount (globals0 t b f) = 0 \<and> lossCount (globals0 t b f) = 0 \<and>
   (in_scope br \<longrightarrow>
      (victoryCount (after (onBattleResult R br s)) = victoryCount s + 1 \<and>
       lossCount (after (onBattleResult R br s)) = lossCount s) \<or>
      (victoryCount (after (onBattleResult R br s)) = victoryCount s \<and>
       lossCount (after (onBattleResult R br s)) = lossCount s + 1)) \<and>
   (\<not> in_scope br \<longrightarrow>
      victoryCount (after (onBattleResult R br s)) = victoryCount s \<and>
      lossCount (after (onBattleResult R br s)) = lossCount s) \<and>
   victoryCount s \<le> victoryCount (after (handle V R e s)) \<and>
   lossCount s \<le> lossCount (after (handle V R e s)) \<and>
   victoryCount s \<le> victoryCount (run V R s es) \<and>
   lossCount s \<le> lossCount (run V R s es)"
proof -
  have init: "victoryCount (globals0 t b f) = 0 \<and> lossCount (globals0 t b f) = 0"
    by (simp add: globals0_def)
  have scope: "in_scope br \<longrightarrow>
      (victoryCount (after (onBattleResult R br s)) = victoryCount s + 1 \<and>
       lossCount (after (onBattleResult R br s)) = lossCount s) \<or>
      (victoryCount (after (onBattleResult R br s)) = victoryCount s \<and>
       lossCount (after (onBattleResult R br s)) = lossCount s + 1)"
    using onBattleResult_victory[of br R s] onBattleResult_loss[of br R s]
    by (cases "isVictory br") (simp_all add: isRandomBattle_in_scope)
  have out: "\<not> in_scope br \<longrightarrow>
      victoryCount (after (onBattleResult R br s)) = victoryCount s \<and>
      lossCount (after (onBattleResult R br s)) = lossCount s"
    by (simp add: onBattleResult_out_of_scope isRandomBattle_in_scope)
  have ev: "victoryCount s \<le> victoryCount (after (handle V R e s)) \<and>
      lossCount s \<le> lossCount (after (handle V R e s))"
    using handle_advances[of s V R e] by (simp add: advances_def)
  have evs: "victoryCount s \<le> victoryCount (run V R s es) \<and>
      lossCount s \<le> lossCount (run V R s es)"
    using run_advances[of s V R es] by (simp add: advances_def)
  from init scope out ev evs show ?thesis by blast
qed

theorem counters_invariant_witness:
  "in_scope sample_victory \<and> \<not> in_scope sample_other \<and>
   victoryCount (after (onBattleResult sample_renderer sample_victory ready)) = 1 \<and>
   lossCount (after (onBattleResult sample_renderer sample_victory ready)) = 0 \<and>
   victoryCount (after (onBattleResult sample_renderer sample_other ready)) = 0 \<and>
   lossCount (after (onBattleResult sample_renderer sample_other ready)) = 0"
proof -
  have v: "isRandomBattle sample_victory" "isVictory sample_victory"
    by (simp_all add: isRandomBattle_in_scope sample_scope sample_isVictory)
  have r: "victoryCount ready = 0" "lossCount ready = 0" by (simp_all add: ready_eq)
  show ?thesis
    using counters_invariant[of "[]" "[]" "[]" sample_victory sample_renderer ready VariantA
        Open "[]"]
      counters_invariant[of "[]" "[]" "[]" sample_other sample_renderer ready VariantA
        Open "[]"]
      onBattleResult_victory[OF v, of sample_renderer ready]
    by (simp add: sample_scope r)
qed

subsection \<open>C3\<close>

text \<open>
  C3: for every in-scope battle result whose \<^verbatim>\<open>personal.avatar.team\<close> and
  \<^verbatim>\<open>common.winnerTeam\<close> are both present and hold the same number, processing the result
  increments \<open>victoryCount\<close> by exactly 1 and leaves \<open>lossCount\<close> unchanged.
\<close>

theorem equal_teams_count_as_victory:
  assumes "in_scope br"
    and "at_path br [''personal'', ''avatar'', ''team''] = Num n"
    and "at_path br [''common'', ''winnerTeam''] = Num n"
  shows "victoryCount (after (onBattleResult R br s)) = victoryCount s + 1 \<and>
         lossCount (after (onBattleResult R br s)) = lossCount s"
proof -
  from assms(2) have "getTeam br = Num n" by (simp add: getTeam_at_path)
  moreover from assms(3) have "getWinnerTeam br = Num n" by (simp add: getWinnerTeam_at_path)
  ultimately have "isVictory br" by (simp add: isVictory_def)
  moreover from assms(1) have "isRandomBattle br" by (simp add: isRandomBattle_in_scope)
  ultimately show ?thesis by (simp add: onBattleResult_victory)
qed

theorem equal_teams_count_as_victory_witness:
  "in_scope sample_victory \<and>
   at_path sample_victory [''personal'', ''avatar'', ''team''] = Num 1 \<and>
   at_path sample_victory [''common'', ''winnerTeam''] = Num 1 \<and>
   victoryCount (after (onBattleResult sample_renderer sample_victory ready)) = 1 \<and>
   lossCount (after (onBattleResult sample_renderer sample_victory ready)) = 0"
proof -
  have a: "in_scope sample_victory" by (rule sample_scope)
  have b: "at_path sample_victory [''personal'', ''avatar'', ''team''] = Num 1"
    by (simp add: at_path_def sample_victory_def)
  have c: "at_path sample_victory [''common'', ''winnerTeam''] = Num 1"
    by (simp add: at_path_def sample_victory_def)
  show ?thesis
    using equal_teams_count_as_victory[OF a b c, of sample_renderer ready] a b c
    by (simp add: ready_eq)
qed

subsection \<open>C4\<close>

text \<open>
  C4: the disconnected flag is false at startup. A close or error event raises it, and
  from then on it stays raised under every sequence of events; every render call made from
  the handling of that first close or error event on is made with the flag raised.
\<close>

theorem disconnected_is_permanent:
  "\<not> showDisconnectedHint (globals0 t b f) \<and>
   \<not> showDisconnectedHint (after (startup R t b f)) \<and>
   (ws_constructed s \<and> (e = Close \<or> e = Error) \<longrightarrow>
      showDisconnectedHint (run V R s (e # es)) \<and>
      (\<exists>new. renders (run V R s (e # es)) = renders s @ new \<and>
         (\<forall>c \<in> set new. seen_hint c))) \<and>
   (showDisconnectedHint s \<longrightarrow>
      showDisconnectedHint (run V R s es) \<and>
      (\<exists>new. renders (run V R s es) = renders s @ new \<and> (\<forall>c \<in> set new. seen_hint c)))"
proof -
  have init: "\<not> showDisconnectedHint (globals0 t b f)"
    by (simp add: globals0_def)
  have start: "\<not> showDisconnectedHint (after (startup R t b f))"
  proof (cases "render R (globals0 t b f)")
    case (Completed s1)
    with render_globals(3)[of R "globals0 t b f"] show ?thesis
      by (simp add: startup_def new_WebSocket_def globals0_def)
  next
    case (Faulted err s1)
    with render_globals(3)[of R "globals0 t b f"] show ?thesis
      by (simp add: startup_def globals0_def)
  qed
  have kept: "showDisconnectedHint s' \<longrightarrow>
      showDisconnectedHint (run V R s' es') \<and>
      (\<exists>new. renders (run V R s' es') = renders s' @ new \<and> (\<forall>c \<in> set new. seen_hint c))"
    for s' es'
    using run_advances[of s' V R es'] by (auto simp: advances_def)
  have first: "showDisconnectedHint (run V R s (e # es)) \<and>
      (\<exists>new. renders (run V R s (e # es)) = renders s @ new \<and> (\<forall>c \<in> set new. seen_hint c))"
    if ws: "ws_constructed s" and e: "e = Close \<or> e = Error"
  proof -
    let ?s1 = "after (onDisconnect R s)"
    from ws e have d: "dispatch V R e s = ?s1"
      by (cases V) (auto simp: dispatch_def)
    have f1: "showDisconnectedHint ?s1"
      by (simp add: onDisconnect_def render_globals)
    have r1: "renders ?s1 = renders s @
        [\<lparr>seen_victoryCount = victoryCount s, seen_lossCount = lossCount s, seen_hint = True\<rparr>]"
      by (simp add: onDisconnect_def render_renders)
    from kept[of ?s1 es] f1 obtain new where
      k: "showDisconnectedHint (run V R ?s1 es)"
        "renders (run V R ?s1 es) = renders ?s1 @ new" "\<forall>c \<in> set new. seen_hint c"
      by blast
    from k(2) r1 have "renders (run V R ?s1 es) = renders s @
        (\<lparr>seen_victoryCount = victoryCount s, seen_lossCount = lossCount s, seen_hint = True\<rparr>
          # new)"
      by simp
    moreover from k(3) have "\<forall>c \<in> set (\<lparr>seen_victoryCount = victoryCount s,
        seen_lossCount = lossCount s, seen_hint = True\<rparr> # new). seen_hint c"
      by simp
    ultimately show ?thesis using k(1) d by (simp del: append.simps)
  qed
  from init start kept[of s es] first show ?thesis by blast
qed

theorem disconnected_is_permanent_witness:
  "ws_constructed ready \<and> (Close = Close \<or> Close = Error) \<and>
   showDisconnectedHint (dispatch VariantB sample_renderer Error ready) \<and>
   showDisconnectedHint
     (run VariantA sample_renderer ready [Close, Message (Some (notification sample_victory))]) \<and>
   renders
     (run VariantA sample_renderer ready [Close, Message (Some (notification sample_victory))]) =
     [\<lparr>seen_victoryCount = 0, seen_lossCount = 0, seen_hint = False\<rparr>,
      \<lparr>seen_victoryCount = 0, seen_lossCount = 0, seen_hint = True\<rparr>,
      \<lparr>seen_victoryCount = 1, seen_lossCount = 0, seen_hint = True\<rparr>] \<and>
   showDisconnectedHint
     (run VariantB sample_renderer (dispatch VariantB sample_renderer Error ready) [Open])"
proof -
  have a: "ws_constructed ready" by (simp add: ready_eq)
  have b: "showDisconnectedHint (dispatch VariantB sample_renderer Error ready)"
    by (simp add: dispatch_def onDisconnect_def render_globals ready_eq)
  have c: "renders
     (run VariantA sample_renderer ready [Close, Message (Some (notification sample_victory))]) =
     [\<lparr>seen_victoryCount = 0, seen_lossCount = 0, seen_hint = False\<rparr>,
      \<lparr>seen_victoryCount = 0, seen_lossCount = 0, seen_hint = True\<rparr>,
      \<lparr>seen_victoryCount = 1, seen_lossCount = 0, seen_hint = True\<rparr>]"
    by (simp add: dispatch_def onDisconnect_def onMessage_A_def onJsonRpcMessage_def
        onBattleResult_def notification_def isRandomBattle_in_scope sample_scope
        sample_isVictory render_globals render_renders ready_eq)
  show ?thesis
    using disconnected_is_permanent[of "[]" "[]" "[]" sample_renderer ready Close VariantA
        "[Message (Some (notification sample_victory))]"]
      disconnected_is_permanent[of "[]" "[]" "[]" sample_renderer
        "dispatch VariantB sample_renderer Error ready" Close VariantB "[Open]"]
      a b c
    by simp
qed

subsection \<open>C5\<close>

text \<open>
  C5: a Variant A message that the decoder classifies as an error report (it reaches the
  test of its \<^verbatim>\<open>error\<close> member, which is truthy), and a Variant B frame whose
  \<^verbatim>\<open>messageType\<close> is \<^verbatim>\<open>'ERROR'\<close>, are handled by one call of \<^verbatim>\<open>console.error\<close> and
  nothing else: the handler completes, and \<open>victoryCount\<close>, \<open>lossCount\<close> and the
  disconnected flag are unchanged.
\<close>

theorem server_error_only_logged:
  "(classify m = ErrorReport \<longrightarrow>
      onJsonRpcMessage R m s = Completed (console_error ''Error:'' (get m ''error'') s) \<and>
      victoryCount (after (onJsonRpcMessage R m s)) = victoryCount s \<and>
      lossCount (after (onJsonRpcMessage R m s)) = lossCount s \<and>
      showDisconnectedHint (after (onJsonRpcMessage R m s)) = showDisconnectedHint s \<and>
      renders (after (onJsonRpcMessage R m s)) = renders s \<and>
      onMessage_A R (Some m) s = onJsonRpcMessage R m s) \<and>
   (strict_eq (get m ''messageType'') (Str ''ERROR'') \<longrightarrow>
      onMessage_B R (Some m) s =
        Completed (console_error ''Protocol Error:'' (get m ''payload'') s) \<and>
      victoryCount (after (onMessage_B R (Some m) s)) = victoryCount s \<and>
      lossCount (after (onMessage_B R (Some m) s)) = lossCount s \<and>
      showDisconnectedHint (after (onMessage_B R (Some m) s)) = showDisconnectedHint s \<and>
      renders (after (onMessage_B R (Some m) s)) = renders s)"
proof -
  have A: "onJsonRpcMessage R m s = Completed (console_error ''Error:'' (get m ''error'') s) \<and>
      onMessage_A R (Some m) s = onJsonRpcMessage R m s"
    if c: "classify m = ErrorReport"
  proof -
    from c have e: "truthy (get m ''error'')"
      and n: "\<not> strict_eq (get m ''method'') (Str ''subscription'')"
      and h: "\<not> (truthy (get m ''result'') \<and> strict_eq (get m ''id'') (Num 1))"
      by (auto simp: classify_def split: if_splits)
    from e have nn: "\<not> nullish m" by (rule get_truthy_not_nullish)
    from e have "\<forall>ms. m \<noteq> Arr ms" by auto
    then have "onMessage_A R (Some m) s = onJsonRpcMessage R m s"
      by (cases m) (simp_all add: onMessage_A_def)
    moreover from e n h nn
    have "onJsonRpcMessage R m s = Completed (console_error ''Error:'' (get m ''error'') s)"
      by (auto simp: onJsonRpcMessage_def)
    ultimately show ?thesis by simp
  qed
  have B: "onMessage_B R (Some m) s =
      Completed (console_error ''Protocol Error:'' (get m ''payload'') s)"
    if t: "strict_eq (get m ''messageType'') (Str ''ERROR'')"
  proof -
    from t have "\<not> nullish m" by (rule strict_eq_get_Str_not_nullish)
    moreover from t have "\<not> strict_eq (get m ''messageType'') (Str ''BATTLE_RESULT'')"
      by (simp add: strict_eq_Str)
    ultimately show ?thesis using t by (simp add: onMessage_B_def)
  qed
  from A B show ?thesis by (simp add: console_error_globals)
qed

theorem server_error_only_logged_witness:
  "classify (Obj [(''jsonrpc'', Str ''2.0''), (''error'', sample_error), (''id'', Num 1)])
     = ErrorReport \<and>
   strict_eq (get (Obj [(''messageType'', Str ''ERROR''), (''payload'', sample_error)])
     ''messageType'') (Str ''ERROR'') \<and>
   after (onMessage_A sample_renderer
     (Some (Obj [(''jsonrpc'', Str ''2.0''), (''error'', sample_error), (''id'', Num 1)]))
     ready) = ready\<lparr>console := [(''Error:'', sample_error)]\<rparr> \<and>
   after (onMessage_B sample_renderer
     (Some (Obj [(''messageType'', Str ''ERROR''), (''payload'', sample_error)]))
     ready) = ready\<lparr>console := [(''Protocol Error:'', sample_error)]\<rparr>"
proof -
  let ?a = "Obj [(''jsonrpc'', Str ''2.0''), (''error'', sample_error), (''id'', Num 1)]"
  let ?b = "Obj [(''messageType'', Str ''ERROR''), (''payload'', sample_error)]"
  have a: "classify ?a = ErrorReport" by (simp add: classify_def sample_error_def)
  have b: "strict_eq (get ?b ''messageType'') (Str ''ERROR'')" by simp
  show ?thesis
    using server_error_only_logged[of ?a sample_renderer ready]
      server_error_only_logged[of ?b sample_renderer ready] a b
    by (simp add: console_error_def ready_eq)
qed

subsection \<open>C6\<close>

text \<open>
  C6: the Variant A decoder handles a frame that is an array message by message and any
  other frame as the one-message batch of itself. On a frame of the expected shape it does
  what the specification's decoder says: per message it extracts \<^verbatim>\<open>params.battleResult\<close>
  of a notification, each element of \<^verbatim>\<open>result.battleResults\<close> of the reply with
  \<^verbatim>\<open>id === 1\<close>, logs the \<^verbatim>\<open>error\<close> of an error report and ignores any other message, and
  it processes what it extracted in the order of arrival, one after the other. With a
  renderer that always returns, the handler completes.
\<close>

theorem decoder_follows_specification:
  assumes "conforms_frame frame"
  shows "onMessage_A R (Some frame) s = forEach (process R) (decode_frame frame) s \<and>
         (\<not> is_array frame \<longrightarrow>
            onMessage_A R (Some frame) s = onMessage_A R (Some (Arr [frame])) s \<and>
            decode_frame frame = decode_frame (Arr [frame])) \<and>
         ((\<forall>w h. returns_at R w h) \<longrightarrow> completed (onMessage_A R (Some frame) s))"
proof -
  have eq: "onMessage_A R (Some frame) s = forEach (process R) (decode_frame frame) s"
  proof (cases "is_array frame")
    case True
    then obtain ms where "frame = Arr ms" by (cases frame) simp_all
    with assms show ?thesis
      by (simp add: onMessage_A_def decode_frame_def conforms_frame_def
          forEach_onJsonRpcMessage_decode)
  next
    case False
    with assms have "conforms frame" by (cases frame) (simp_all add: conforms_frame_def)
    then have "onJsonRpcMessage R frame s = forEach (process R) (decode_object frame) s"
      by (rule onJsonRpcMessage_decode)
    with False show ?thesis
      by (cases frame) (simp_all add: onMessage_A_def decode_frame_def)
  qed
  have single: "onMessage_A R (Some frame) s = onMessage_A R (Some (Arr [frame])) s \<and>
      decode_frame frame = decode_frame (Arr [frame])"
    if "\<not> is_array frame"
    using that
    by (cases frame) (simp_all add: onMessage_A_def decode_frame_def andThen_forEach_Nil)
  have "completed (forEach (process R) (decode_frame frame) s)" if "\<forall>w h. returns_at R w h"
    by (rule forEach_completed) (simp add: process_completed that)
  with eq have comp: "(\<forall>w h. returns_at R w h) \<longrightarrow> completed (onMessage_A R (Some frame) s)"
    by simp
  from eq single comp show ?thesis by blast
qed

theorem decoder_follows_specification_witness:
  "conforms_frame sample_batch \<and>
   (\<forall>w h. returns_at sample_renderer w h) \<and>
   decode_frame sample_batch =
     [BattleResult sample_loss, BattleResult sample_other, ServerError sample_error,
      BattleResult sample_victory] \<and>
   onMessage_A sample_renderer (Some sample_batch) ready =
     Completed (ready\<lparr>victoryCount := 1, lossCount := 1,
       console := [(''Error:'', sample_error)],
       renders :=
         [\<lparr>seen_victoryCount = 0, seen_lossCount = 0, seen_hint = False\<rparr>,
          \<lparr>seen_victoryCount = 0, seen_lossCount = 1, seen_hint = False\<rparr>,
          \<lparr>seen_victoryCount = 1, seen_lossCount = 1, seen_hint = False\<rparr>]\<rparr>) \<and>
   conforms_frame (notification sample_victory) \<and>
   \<not> is_array (notification sample_victory) \<and>
   decode_frame (notification sample_victory) = [BattleResult sample_victory] \<and>
   onMessage_A sample_renderer (Some (Arr [notification sample_victory])) ready =
     Completed (ready\<lparr>victoryCount := 1,
       renders :=
         [\<lparr>seen_victoryCount = 0, seen_lossCount = 0, seen_hint = False\<rparr>,
          \<lparr>seen_victoryCount = 1, seen_lossCount = 0, seen_hint = False\<rparr>]\<rparr>)"
proof -
  have a: "conforms_frame sample_batch"
    by (simp add: conforms_frame_def conforms_def sample_batch_def has_def at_path_def
        notification_def sample_error_def)
  have b: "conforms_frame (notification sample_victory)"
    by (simp add: conforms_frame_def conforms_def notification_def)
  have c: "\<not> is_array (notification sample_victory)"
    by (simp add: notification_def)
  have d: "decode_frame sample_batch =
     [BattleResult sample_loss, BattleResult sample_other, ServerError sample_error,
      BattleResult sample_victory]"
    by (simp add: decode_frame_def decode_object_def sample_batch_def has_def at_path_def
        notification_def sample_error_def)
  have e: "decode_frame (notification sample_victory) = [BattleResult sample_victory]"
    by (simp add: decode_frame_def decode_object_def notification_def at_path_def)
  have f: "forEach (process sample_renderer)
      [BattleResult sample_loss, BattleResult sample_other, ServerError sample_error,
       BattleResult sample_victory] ready =
     Completed (ready\<lparr>victoryCount := 1, lossCount := 1,
       console := [(''Error:'', sample_error)],
       renders :=
         [\<lparr>seen_victoryCount = 0, seen_lossCount = 0, seen_hint = False\<rparr>,
          \<lparr>seen_victoryCount = 0, seen_lossCount = 1, seen_hint = False\<rparr>,
          \<lparr>seen_victoryCount = 1, seen_lossCount = 1, seen_hint = False\<rparr>]\<rparr>)"
    by (simp add: onBattleResult_def render_sample_renderer record_render_def
        console_error_def isRandomBattle_in_scope sample_scope sample_isVictory ready_eq)
  have g: "forEach (process sample_renderer) [BattleResult sample_victory] ready =
     Completed (ready\<lparr>victoryCount := 1,
       renders :=
         [\<lparr>seen_victoryCount = 0, seen_lossCount = 0, seen_hint = False\<rparr>,
          \<lparr>seen_victoryCount = 1, seen_lossCount = 0, seen_hint = False\<rparr>]\<rparr>)"
    by (simp add: onBattleResult_def render_sample_renderer record_render_def
        isRandomBattle_in_scope sample_scope sample_isVictory ready_eq)
  from decoder_follows_specification[OF a, of sample_renderer ready] d f
  have h: "onMessage_A sample_renderer (Some sample_batch) ready =
     Completed (ready\<lparr>victoryCount := 1, lossCount := 1,
       console := [(''Error:'', sample_error)],
       renders :=
         [\<lparr>seen_victoryCount = 0, seen_lossCount = 0, seen_hint = False\<rparr>,
          \<lparr>seen_victoryCount = 0, seen_lossCount = 1, seen_hint = False\<rparr>,
          \<lparr>seen_victoryCount = 1, seen_lossCount = 1, seen_hint = False\<rparr>]\<rparr>)"
    by (simp only:)
  from decoder_follows_specification[OF b, of sample_renderer ready] c
  have "onMessage_A sample_renderer (Some (Arr [notification sample_victory])) ready =
      forEach (process sample_renderer) (decode_frame (notification sample_victory)) ready"
    by metis
  with e g
  have i: "onMessage_A sample_renderer (Some (Arr [notification sample_victory])) ready =
     Completed (ready\<lparr>victoryCount := 1,
       renders :=
         [\<lparr>seen_victoryCount = 0, seen_lossCount = 0, seen_hint = False\<rparr>,
          \<lparr>seen_victoryCount = 1, seen_lossCount = 0, seen_hint = False\<rparr>]\<rparr>)"
    by (simp only:)
  from a b c d e h i show ?thesis
    by (simp only: sample_renderer_returns simp_thms)
qed

subsection \<open>C7\<close>

text \<open>
  C7: the win rate that \<^verbatim>\<open>render\<close> computes and hands to the three renderer functions
  is \<open>victoryCount\<close> divided by \<open>victoryCount + lossCount\<close>; it is \<^verbatim>\<open>NaN\<close> exactly when
  both counters are zero. \<^verbatim>\<open>render\<close> completes exactly when the renderer returns for that
  win rate, and the page then displays the renderer's three results. In the zero-games state
  \<^verbatim>\<open>render\<close> completes without throwing, given the renderer's contract that it returns
  at \<^verbatim>\<open>NaN\<close>.
\<close>

theorem winRate_of_counters:
  "(0 < victoryCount s + lossCount s \<longrightarrow>
      winRate s = Finite (of_nat (victoryCount s) / of_nat (victoryCount s + lossCount s))) \<and>
   (winRate s = NaN) = (victoryCount s = 0 \<and> lossCount s = 0) \<and>
   completed (render R s) = returns_at R (winRate s) (showDisconnectedHint s) \<and>
   (returns_at R (winRate s) (showDisconnectedHint s) \<longrightarrow>
      render R s =
        Completed (record_render s\<lparr>title := projr (renderTitle R (winRate s)),
          innerHTML := projr (renderContent R (winRate s) (showDisconnectedHint s)),
          favicon_href := projr (renderFavicon R (winRate s))\<rparr>)) \<and>
   (victoryCount s = 0 \<and> lossCount s = 0 \<and> returns_at R NaN (showDisconnectedHint s) \<longrightarrow>
      completed (render R s) \<and>
      title (after (render R s)) = projr (renderTitle R NaN) \<and>
      innerHTML (after (render R s)) = projr (renderContent R NaN (showDisconnectedHint s)) \<and>
      favicon_href (after (render R s)) = projr (renderFavicon R NaN))"
proof -
  have pos: "0 < victoryCount s + lossCount s \<longrightarrow>
      winRate s = Finite (of_nat (victoryCount s) / of_nat (victoryCount s + lossCount s))"
    by (simp add: winRate_def js_div_def add.commute)
  have zero: "completed (render R s) \<and>
      title (after (render R s)) = projr (renderTitle R NaN) \<and>
      innerHTML (after (render R s)) = projr (renderContent R NaN (showDisconnectedHint s)) \<and>
      favicon_href (after (render R s)) = projr (renderFavicon R NaN)"
    if z: "victoryCount s = 0 \<and> lossCount s = 0"
      and r: "returns_at R NaN (showDisconnectedHint s)"
  proof -
    from z have w: "winRate s = NaN" by (simp add: winRate_NaN)
    with r have "returns_at R (winRate s) (showDisconnectedHint s)" by simp
    from render_returns[OF this] w show ?thesis by (simp add: record_render_def)
  qed
  have iff: "completed (render R s) = returns_at R (winRate s) (showDisconnectedHint s)"
    using render_returns[of R s] render_throws[of R s] by auto
  have nan: "(winRate s = NaN) = (victoryCount s = 0 \<and> lossCount s = 0)"
    by (rule winRate_NaN)
  have shown: "returns_at R (winRate s) (showDisconnectedHint s) \<longrightarrow>
      render R s =
        Completed (record_render s\<lparr>title := projr (renderTitle R (winRate s)),
          innerHTML := projr (renderContent R (winRate s) (showDisconnectedHint s)),
          favicon_href := projr (renderFavicon R (winRate s))\<rparr>)"
    by (simp add: render_returns)
  from pos nan iff shown zero show ?thesis
    by blast
qed

theorem winRate_of_counters_witness:
  "0 < victoryCount (ready\<lparr>victoryCount := 3, lossCount := 1\<rparr>) +
       lossCount (ready\<lparr>victoryCount := 3, lossCount := 1\<rparr>) \<and>
   winRate (ready\<lparr>victoryCount := 3, lossCount := 1\<rparr>) = Finite (3 / 4) \<and>
   victoryCount ready = 0 \<and> lossCount ready = 0 \<and>
   returns_at sample_renderer NaN (showDisconnectedHint ready) \<and>
   winRate ready = NaN \<and>
   completed (render sample_renderer ready) \<and>
   title (after (render sample_renderer ready)) = ''title'' \<and>
   innerHTML (after (render sample_renderer ready)) = ''content''"
proof -
  have r: "victoryCount ready = 0" "lossCount ready = 0" "\<not> showDisconnectedHint ready"
    by (simp_all add: ready_eq)
  have c: "returns_at sample_renderer NaN False"
    by (simp add: returns_at_def sample_renderer_def)
  have p: "projr (renderTitle sample_renderer NaN) = ''title''"
    "projr (renderContent sample_renderer NaN False) = ''content''"
    by (simp_all add: sample_renderer_def)
  show ?thesis
    using winRate_of_counters[of "ready\<lparr>victoryCount := 3, lossCount := 1\<rparr>" sample_renderer]
      winRate_of_counters[of ready sample_renderer] r c p
    by simp
qed

subsection \<open>C8\<close>

text \<open>
  C8: the open event of Variant A sends exactly one frame, the array of the two JSON-RPC
  2.0 requests \<^verbatim>\<open>get_battle_results\<close> (id 1) and \<^verbatim>\<open>subscribe\<close> (id 2); the open event
  of Variant B sends exactly two frames, \<^verbatim>\<open>REPLAY\<close> and then \<^verbatim>\<open>SUBSCRIBE\<close>, each with an
  empty payload. No other event sends anything: over any sequence of events the frames
  sent are the handshakes of its open events, in order, so a session with one open event
  sends the handshake and nothing else.
\<close>

theorem handshake_is_the_only_traffic:
  "sent (after (handle VariantA R Open s)) = sent s @
     [Arr [Obj [(''jsonrpc'', Str ''2.0''), (''method'', Str ''get_battle_results''),
                (''id'', Num 1)],
           Obj [(''jsonrpc'', Str ''2.0''), (''method'', Str ''subscribe''),
                (''id'', Num 2)]]] \<and>
   sent (after (handle VariantB R Open s)) = sent s @
     [Obj [(''messageType'', Str ''REPLAY''), (''payload'', Obj [])],
      Obj [(''messageType'', Str ''SUBSCRIBE''), (''payload'', Obj [])]] \<and>
   (e \<noteq> Open \<longrightarrow> sent (after (handle V R e s)) = sent s) \<and>
   sent (run V R s es) = sent s @ (if ws_constructed s then outbound V es else []) \<and>
   (ws_constructed s \<and> sent s = [] \<and> length (filter (\<lambda>e. e = Open) es) = 1 \<longrightarrow>
      sent (run V R s es) = handshake V)"
proof -
  have one: "outbound V es' = handshake V" if "length (filter (\<lambda>e. e = Open) es') = 1"
    for es'
    using that
  proof (induction es')
    case Nil
    then show ?case by simp
  next
    case (Cons x xs)
    show ?case
    proof (cases "x = Open")
      case True
      with Cons.prems have "filter (\<lambda>e. e = Open) xs = []" by simp
      then have "\<forall>e \<in> set xs. e \<noteq> Open" by (simp add: filter_empty_conv)
      then have "outbound V xs = []" by (induction xs) (simp_all add: outbound_def)
      with True show ?thesis by (simp add: outbound_def)
    next
      case False
      with Cons show ?thesis by (simp add: outbound_def)
    qed
  qed
  have A: "sent (after (handle VariantA R Open s)) = sent s @ handshake VariantA"
    and B: "sent (after (handle VariantB R Open s)) = sent s @ handshake VariantB"
    by (rule handle_Open_sent)+
  from A B one[of es] show ?thesis
    by (simp add: handle_other_sent run_sent)
qed

theorem handshake_is_the_only_traffic_witness:
  "Close \<noteq> Open \<and> sent (after (handle VariantA sample_renderer Close ready)) = [] \<and>
   ws_constructed ready \<and> sent ready = [] \<and>
   length (filter (\<lambda>e. e = Open)
     [Open, Message (Some (notification sample_victory)), Close]) = 1 \<and>
   sent (run VariantA sample_renderer ready
     [Open, Message (Some (notification sample_victory)), Close]) =
     [Arr [Obj [(''jsonrpc'', Str ''2.0''), (''method'', Str ''get_battle_results''),
                (''id'', Num 1)],
           Obj [(''jsonrpc'', Str ''2.0''), (''method'', Str ''subscribe''),
                (''id'', Num 2)]]] \<and>
   sent (run VariantB sample_renderer ready
     [Open, Message (Some (notification sample_victory)), Close]) =
     [Obj [(''messageType'', Str ''REPLAY''), (''payload'', Obj [])],
      Obj [(''messageType'', Str ''SUBSCRIBE''), (''payload'', Obj [])]]"
proof -
  have r: "ws_constructed ready" "sent ready = []" by (simp_all add: ready_eq)
  show ?thesis
    using handshake_is_the_only_traffic[of sample_renderer ready Close VariantA
        "[Open, Message (Some (notification sample_victory)), Close]"]
      handshake_is_the_only_traffic[of sample_renderer ready Close VariantB
        "[Open, Message (Some (notification sample_victory)), Close]"] r
    by (simp add: outbound_def)
qed

subsection \<open>C9\<close>



subsection \<open>C10\<close>

text \<open>
  C10: the Variant A decoder tests its branches in a fixed order. A message whose
  \<^verbatim>\<open>method\<close> is \<^verbatim>\<open>'subscription'\<close> is handled as a notification only, and a message
  with a truthy \<^verbatim>\<open>result\<close> and \<^verbatim>\<open>id === 1\<close> (that is not a notification) as a historical
  reply only, whether or not the message also carries an \<^verbatim>\<open>error\<close> member; in both cases
  nothing is logged.
\<close>

theorem earlier_branch_wins:
  "(strict_eq (get m ''method'') (Str ''subscription'') \<longrightarrow>
      classify m = Notification \<and>
      onJsonRpcMessage R m s =
        (if nullish (get m ''params'') then Faulted TypeError s
         else onBattleResult R (get (get m ''params'') ''battleResult'') s) \<and>
      console (after (onJsonRpcMessage R m s)) = console s) \<and>
   (\<not> strict_eq (get m ''method'') (Str ''subscription'') \<and>
    truthy (get m ''result'') \<and> strict_eq (get m ''id'') (Num 1) \<longrightarrow>
      classify m = HistoryReply \<and>
      onJsonRpcMessage R m s =
        (case iterate (get (get m ''result'') ''battleResults'') of
           None \<Rightarrow> Faulted TypeError s
         | Some battleResults \<Rightarrow> forEach (onBattleResult R) battleResults s) \<and>
      console (after (onJsonRpcMessage R m s)) = console s)"
proof -
  have N: "onJsonRpcMessage R m s =
        (if nullish (get m ''params'') then Faulted TypeError s
         else onBattleResult R (get (get m ''params'') ''battleResult'') s)"
    if n: "strict_eq (get m ''method'') (Str ''subscription'')"
  proof -
    from n have "\<not> nullish m" by (rule strict_eq_get_Str_not_nullish)
    with n show ?thesis by (simp add: onJsonRpcMessage_def)
  qed
  have H: "onJsonRpcMessage R m s =
        (case iterate (get (get m ''result'') ''battleResults'') of
           None \<Rightarrow> Faulted TypeError s
         | Some battleResults \<Rightarrow> forEach (onBattleResult R) battleResults s)"
    if n: "\<not> strict_eq (get m ''method'') (Str ''subscription'')"
      and r: "truthy (get m ''result'')" and i: "strict_eq (get m ''id'') (Num 1)"
  proof -
    from r have "\<not> nullish m" by (rule get_truthy_not_nullish)
    with n r i show ?thesis by (simp add: onJsonRpcMessage_def)
  qed
  have cN: "console (after (if nullish (get m ''params'') then Faulted TypeError s
         else onBattleResult R (get (get m ''params'') ''battleResult'') s)) = console s"
    by (simp add: onBattleResult_console)
  have cH: "console (after (case iterate (get (get m ''result'') ''battleResults'') of
           None \<Rightarrow> Faulted TypeError s
         | Some battleResults \<Rightarrow> forEach (onBattleResult R) battleResults s)) = console s"
    by (simp add: forEach_onBattleResult_console split: option.splits)
  show ?thesis
    using N H cN cH by (simp add: classify_def)
qed

theorem earlier_branch_wins_witness:
  "strict_eq (get (Obj [(''method'', Str ''subscription''), (''error'', sample_error),
       (''params'', Obj [(''battleResult'', sample_victory)])]) ''method'')
     (Str ''subscription'') \<and>
   after (onJsonRpcMessage sample_renderer
     (Obj [(''method'', Str ''subscription''), (''error'', sample_error),
       (''params'', Obj [(''battleResult'', sample_victory)])]) ready) =
     after (onBattleResult sample_renderer sample_victory ready) \<and>
   console (after (onJsonRpcMessage sample_renderer
     (Obj [(''method'', Str ''subscription''), (''error'', sample_error),
       (''params'', Obj [(''battleResult'', sample_victory)])]) ready)) = [] \<and>
   truthy (get (Obj [(''result'', Obj [(''battleResults'', Arr [sample_loss])]),
       (''id'', Num 1), (''error'', sample_error)]) ''result'') \<and>
   strict_eq (get (Obj [(''result'', Obj [(''battleResults'', Arr [sample_loss])]),
       (''id'', Num 1), (''error'', sample_error)]) ''id'') (Num 1) \<and>
   after (onJsonRpcMessage sample_renderer
     (Obj [(''result'', Obj [(''battleResults'', Arr [sample_loss])]),
       (''id'', Num 1), (''error'', sample_error)]) ready) =
     after (onBattleResult sample_renderer sample_loss ready) \<and>
   console (after (onJsonRpcMessage sample_renderer
     (Obj [(''result'', Obj [(''battleResults'', Arr [sample_loss])]),
       (''id'', Num 1), (''error'', sample_error)]) ready)) = []"
proof -
  let ?n = "Obj [(''method'', Str ''subscription''), (''error'', sample_error),
       (''params'', Obj [(''battleResult'', sample_victory)])]"
  let ?h = "Obj [(''result'', Obj [(''battleResults'', Arr [sample_loss])]),
       (''id'', Num 1), (''error'', sample_error)]"
  have r: "console ready = []" by (simp add: ready_eq)
  show ?thesis
    using earlier_branch_wins[of ?n sample_renderer ready]
      earlier_branch_wins[of ?h sample_renderer ready] r
    by (simp add: andThen_forEach_Nil onBattleResult_console)
qed

end
